theory Spec2Isabelle
  imports Complex_Main
begin

section \<open>Data model\<close>

text \<open>
  The chart component \<^verbatim>\<open>StockChart.jsx\<close> receives \<^verbatim>\<open>props.data\<close>, an array of
  objects with the fields \<^verbatim>\<open>date\<close>, \<^verbatim>\<open>open\<close>, \<^verbatim>\<open>high\<close>, \<^verbatim>\<open>low\<close>, \<^verbatim>\<open>close\<close> and
  \<^verbatim>\<open>volume\<close>. A \<^verbatim>\<open>Date\<close> is its time value, an integral number of milliseconds, so
  \<^verbatim>\<open>date\<close> is an \<^typ>\<open>int\<close>; subtraction and comparison of two dates are then exact.
  Prices are JavaScript numbers, IEEE doubles, and a double is a real number. Sums,
  quotients and the interpolation of the scales are taken over the reals, so these
  results are the code's up to rounding. The one subtraction whose rounding can undo
  what it is there for, \<^verbatim>\<open>yMin - 5\<close>, is modelled with its rounding (section
  \<open>JavaScript numbers\<close>). \<^verbatim>\<open>volume\<close> may be \<^verbatim>\<open>null\<close>, which is \<open>None\<close>.

  The objects produced by \<^verbatim>\<open>movingAverage\<close> share the field \<^verbatim>\<open>date\<close> with the input
  rows (the line generators read \<^verbatim>\<open>d['date']\<close> from both), hence the common parent
  record.
\<close>

record dated =
  date :: int

record ohlcv = dated +
  openv :: real
  high :: real
  low :: real
  close :: real
  volume :: "real option"

record averaged = dated +
  average :: real

datatype js_error = TypeError

section \<open>Array primitives\<close>

text \<open>\<^verbatim>\<open>Array.prototype.slice(start, stop)\<close> for indices that are already natural numbers:
  the elements at positions \<open>start, \<dots>, stop - 1\<close>, cut at the end of the array, and
  empty when \<open>stop \<le> start\<close>.\<close>

definition slice :: "'a list \<Rightarrow> nat \<Rightarrow> nat \<Rightarrow> 'a list" where
  "slice xs start stop = take (stop - start) (drop start xs)"

text \<open>\<^verbatim>\<open>xs[i]\<close>: reading outside the array gives \<^verbatim>\<open>undefined\<close>, here \<open>None\<close>.\<close>

definition js_index :: "'a list \<Rightarrow> int \<Rightarrow> 'a option" where
  "js_index xs i = (if 0 \<le> i \<and> i < int (length xs) then Some (xs ! nat i) else None)"

section \<open>JavaScript numbers\<close>

text \<open>
  A JavaScript number is an IEEE 754 double: 53 significant bits, an exponent from
  \<open>-1022\<close> up, results rounded to the nearest double, ties to the even significand.
  \<open>binade x\<close> is the exponent of the power of two at or below \<open>\<bar>x\<bar>\<close> (the subnormal
  numbers share the lowest), \<open>ulp x\<close> the distance between neighbouring doubles there,
  and \<open>double_round x\<close> the double nearest to \<open>x\<close>. Overflow to \<^verbatim>\<open>Infinity\<close> is left
  out: it cannot happen when 5 is subtracted from a finite double.
\<close>

definition binade :: "real \<Rightarrow> int" where
  "binade x = max (- 1022) \<lfloor>log 2 \<bar>x\<bar>\<rfloor>"

definition ulp :: "real \<Rightarrow> real" where
  "ulp x = (let e = binade x - 52 in if 0 \<le> e then 2 ^ nat e else 1 / 2 ^ nat (- e))"

definition round_half_even :: "real \<Rightarrow> int" where
  "round_half_even y =
     (let f = \<lfloor>y\<rfloor>; r = y - of_int f
      in if r < 1 / 2 then f else if r > 1 / 2 then f + 1 else if even f then f else f + 1)"

definition double_round :: "real \<Rightarrow> real" where
  "double_round x = (if x = 0 then 0 else of_int (round_half_even (x / ulp x)) * ulp x)"

text \<open>\<^verbatim>\<open>a - b\<close> on two numbers.\<close>

definition js_minus :: "real \<Rightarrow> real \<Rightarrow> real" where
  "js_minus a b = double_round (a - b)"

section \<open>The d3 functions the component calls\<close>

text \<open>
  Modelled from the spec: \<^verbatim>\<open>d3.min\<close> and \<^verbatim>\<open>d3.max\<close> belong to the d3-array library,
  which is not part of this repository. The spec (4.1) reads them as the minimum and
  the maximum of the accessor over the rows, undefined on zero rows. The model is the
  library's loop over rows whose accessor value is a number or a date: the running
  extremum starts undefined (\<open>None\<close>) and is replaced when a row lies strictly beyond it.
\<close>

definition d3_min :: "'a list \<Rightarrow> ('a \<Rightarrow> 'b::linorder) \<Rightarrow> 'b option" where
  "d3_min values valueof =
     foldl (\<lambda>m row. case m of
                       None \<Rightarrow> Some (valueof row)
                     | Some m' \<Rightarrow> if m' > valueof row then Some (valueof row) else Some m')
       None values"

definition d3_max :: "'a list \<Rightarrow> ('a \<Rightarrow> 'b::linorder) \<Rightarrow> 'b option" where
  "d3_max values valueof =
     foldl (\<lambda>m row. case m of
                       None \<Rightarrow> Some (valueof row)
                     | Some m' \<Rightarrow> if m' < valueof row then Some (valueof row) else Some m')
       None values"

text \<open>
  Modelled from the spec: \<^verbatim>\<open>d3.bisector((d) => d.date).left\<close> belongs to d3-array too.
  The spec (4.3) calls it an insertion-point search: a binary search by date,
  left-biased, started at a given offset. The model is the library's loop
  \<^verbatim>\<open>
  while (lo < hi) {
    const mid = (lo + hi) >>> 1;
    if (compare(a[mid], x) < 0) lo = mid + 1; else hi = mid;
  }
  return lo;
  \<close>
  for a target that is a valid date, with \<^verbatim>\<open>hi\<close> passed explicitly
  (the library defaults it to \<^verbatim>\<open>a.length\<close>). \<^verbatim>\<open>>>> 1\<close> works on the
  unsigned 32-bit value of \<^verbatim>\<open>lo + hi\<close>, which is written out. The loop is not assumed
  to end: \<open>None\<close> stands for a search that does not return.
\<close>

partial_function (option) bisect_left :: "ohlcv list \<Rightarrow> int \<Rightarrow> nat \<Rightarrow> nat \<Rightarrow> nat option" where
  "bisect_left a x lo hi =
     (if lo < hi then
        let mid = ((lo + hi) mod 2 ^ 32) div 2 in
        if date (a ! mid) < x then bisect_left a x (mid + 1) hi
        else bisect_left a x lo mid
      else Some lo)"

text \<open>\<^verbatim>\<open>const bisectDate = d3.bisector((d) => d.date).left;\<close> called as
  \<^verbatim>\<open>bisectDate(data, correspondingDate, 1)\<close>.\<close>

definition bisectDate :: "ohlcv list \<Rightarrow> int \<Rightarrow> nat \<Rightarrow> nat option" where
  "bisectDate a x lo = bisect_left a x lo (length a)"

text \<open>
  Modelled from the spec: the continuous scales \<^verbatim>\<open>d3.scaleLinear\<close> and \<^verbatim>\<open>d3.scaleTime\<close>
  belong to the d3-scale library. The spec (4.1) has them map the domain linearly onto
  the pixel range, and (7) asks that a domain with \<open>min = max\<close> collapse to a fixed
  position instead of an infinite or undefined one. The model follows the library:
  the input is normalised to \<open>[0, 1]\<close> over the domain, a domain of width zero
  normalising every input to one half, and the result is interpolated over the range.
  The library's test for a domain of width zero, \<^verbatim>\<open>b -= a\<close>, is exact: the difference of
  two distinct doubles is never zero.
  A scale whose domain holds \<^verbatim>\<open>undefined\<close> or \<^verbatim>\<open>NaN\<close> returns \<^verbatim>\<open>NaN\<close>, here \<open>None\<close>.
\<close>

record 'a continuous =
  scale_domain :: "'a option \<times> 'a option"
  scale_range :: "real \<times> real"

definition normalize :: "real \<Rightarrow> real \<Rightarrow> real \<Rightarrow> real" where
  "normalize a b x = (if b - a \<noteq> 0 then (x - a) / (b - a) else 1 / 2)"

definition interpolateNumber :: "real \<Rightarrow> real \<Rightarrow> real \<Rightarrow> real" where
  "interpolateNumber a b t = a * (1 - t) + b * t"

fun bimap :: "real \<times> real \<Rightarrow> real \<times> real \<Rightarrow> real \<Rightarrow> real" where
  "bimap (d0, d1) (r0, r1) x =
     (if d1 < d0 then interpolateNumber r1 r0 (normalize d1 d0 x)
      else interpolateNumber r0 r1 (normalize d0 d1 x))"

definition scaleLinear :: "real continuous \<Rightarrow> real \<Rightarrow> real option" where
  "scaleLinear s x =
     (case scale_domain s of
        (Some d0, Some d1) \<Rightarrow> Some (bimap (d0, d1) (scale_range s) x)
      | _ \<Rightarrow> None)"

definition scaleTime :: "int continuous \<Rightarrow> int \<Rightarrow> real option" where
  "scaleTime s x =
     (case scale_domain s of
        (Some d0, Some d1) \<Rightarrow> Some (bimap (real_of_int d0, real_of_int d1) (scale_range s) (real_of_int x))
      | _ \<Rightarrow> None)"

section \<open>Moving average\<close>

text \<open>
  \<^verbatim>\<open>
  const movingAverage = (data, numberOfPricePoints) => {
      return data.map((row, index, total) => {
          const start = Math.max(0, index - numberOfPricePoints);
          const end = index;
          const subset = total.slice(start, end + 1);
          const sum = subset.reduce((a, b) => { return a + b['close']; }, 0);
          return { date: row['date'], average: sum / subset.length };
      });
  };
  \<close>
  The window parameter is a count of rows, a natural number. \<^verbatim>\<open>index - numberOfPricePoints\<close>
  may be negative, so it is computed over \<^typ>\<open>int\<close> before \<^verbatim>\<open>Math.max\<close> brings it back.
\<close>

definition movingAverage :: "ohlcv list \<Rightarrow> nat \<Rightarrow> averaged list" where
  "movingAverage data numberOfPricePoints =
     map (\<lambda>(index, row).
            let start = nat (max 0 (int index - int numberOfPricePoints));
                stop = index;
                subset = slice data start (stop + 1);
                sum = foldl (\<lambda>a b. a + close b) 0 subset
            in \<lparr>date = date row, average = sum / real (length subset)\<rparr>)
         (enumerate 0 data)"

section \<open>Rendering\<close>

text \<open>The viewport is the window: \<^verbatim>\<open>window.innerWidth\<close> and \<^verbatim>\<open>window.innerHeight\<close>.\<close>

record viewport =
  innerWidth :: real
  innerHeight :: real

text \<open>\<^verbatim>\<open>const margin = { top: 50, right: 50, bottom: 30, left: 50 };\<close>\<close>

definition margin_top :: real where "margin_top = 50"
definition margin_right :: real where "margin_right = 50"
definition margin_bottom :: real where "margin_bottom = 30"
definition margin_left :: real where "margin_left = 50"

definition width :: "viewport \<Rightarrow> real" where
  "width vp = innerWidth vp - margin_left - margin_right"

definition height :: "viewport \<Rightarrow> real" where
  "height vp = innerHeight vp * (85 / 100) - margin_top - margin_bottom"

definition xMin :: "ohlcv list \<Rightarrow> int option" where
  "xMin data = d3_min data date"

definition xMax :: "ohlcv list \<Rightarrow> int option" where
  "xMax data = d3_max data date"

definition yMin :: "ohlcv list \<Rightarrow> real option" where
  "yMin data = d3_min data close"

definition yMax :: "ohlcv list \<Rightarrow> real option" where
  "yMax data = d3_max data close"

text \<open>\<^verbatim>\<open>d3.scaleTime().domain([xMin, xMax]).range([0, width])\<close>\<close>

definition xScale :: "viewport \<Rightarrow> ohlcv list \<Rightarrow> int continuous" where
  "xScale vp data = \<lparr>scale_domain = (xMin data, xMax data), scale_range = (0, width vp)\<rparr>"

text \<open>\<^verbatim>\<open>d3.scaleLinear().domain([yMin - 5, yMax]).range([height, 0])\<close>; \<^verbatim>\<open>undefined - 5\<close>
  is \<^verbatim>\<open>NaN\<close>.\<close>

definition yScale :: "viewport \<Rightarrow> ohlcv list \<Rightarrow> real continuous" where
  "yScale vp data =
     \<lparr>scale_domain = (map_option (\<lambda>m. js_minus m 5) (yMin data), yMax data),
      scale_range = (height vp, 0)\<rparr>"

text \<open>The points of a path: \<^verbatim>\<open>d3.line().x(d => xScale(d['date'])).y(d => yScale(d[\<dots>]))\<close>.\<close>

definition line :: "viewport \<Rightarrow> ohlcv list \<Rightarrow> ohlcv list \<Rightarrow> (real option \<times> real option) list" where
  "line vp data rows =
     map (\<lambda>d. (scaleTime (xScale vp data) (date d), scaleLinear (yScale vp data) (close d))) rows"

definition movingAverageLine :: "viewport \<Rightarrow> ohlcv list \<Rightarrow> averaged list \<Rightarrow> (real option \<times> real option) list" where
  "movingAverageLine vp data rows =
     map (\<lambda>d. (scaleTime (xScale vp data) (date d), scaleLinear (yScale vp data) (average d))) rows"

text \<open>\<^verbatim>\<open>const movingAverageData = movingAverage(data, 49);\<close>\<close>

definition movingAverageData :: "ohlcv list \<Rightarrow> averaged list" where
  "movingAverageData data = movingAverage data 49"

text \<open>\<^verbatim>\<open>const volData = data.filter((d) => d['volume'] !== null && d['volume'] !== 0);\<close>\<close>

definition volData :: "ohlcv list \<Rightarrow> ohlcv list" where
  "volData data = filter (\<lambda>d. volume d \<noteq> None \<and> volume d \<noteq> Some 0) data"

text \<open>The accessors \<^verbatim>\<open>Math.min(d['volume'])\<close> and \<^verbatim>\<open>Math.max(d['volume'])\<close> return the volume
  itself; of \<^verbatim>\<open>null\<close> they would make \<open>0\<close>.\<close>

definition volume_number :: "ohlcv \<Rightarrow> real" where
  "volume_number d = (case volume d of None \<Rightarrow> 0 | Some v \<Rightarrow> v)"

definition yMinVolume :: "ohlcv list \<Rightarrow> real option" where
  "yMinVolume data = d3_min (volData data) volume_number"

definition yMaxVolume :: "ohlcv list \<Rightarrow> real option" where
  "yMaxVolume data = d3_max (volData data) volume_number"

text \<open>\<^verbatim>\<open>d3.scaleLinear().domain([yMinVolume, yMaxVolume]).range([height, height * (3 / 4)])\<close>\<close>

definition yVolumeScale :: "viewport \<Rightarrow> ohlcv list \<Rightarrow> real continuous" where
  "yVolumeScale vp data =
     \<lparr>scale_domain = (yMinVolume data, yMaxVolume data),
      scale_range = (height vp, height vp * (3 / 4))\<rparr>"

text \<open>
  The volume bars: one \<^verbatim>\<open>rect\<close> per row of \<^verbatim>\<open>volData\<close>, with
  \<^verbatim>\<open>
  .attr('fill', (d, i) => {
      if (i === 0) { return '#03a678'; }
      else { return volData[i - 1].close > d.close ? '#c0392b' : '#03a678'; }
  })
  \<close>
\<close>

record rect =
  rect_x :: "real option"
  rect_y :: "real option"
  rect_fill :: string
  rect_width :: real
  rect_height :: "real option"

definition fill :: "ohlcv list \<Rightarrow> ohlcv \<Rightarrow> nat \<Rightarrow> string" where
  "fill vd d i =
     (if i = 0 then ''#03a678''
      else if close (vd ! (i - 1)) > close d then ''#c0392b'' else ''#03a678'')"

definition vol :: "viewport \<Rightarrow> ohlcv list \<Rightarrow> rect list" where
  "vol vp data =
     map (\<lambda>(i, d).
            \<lparr>rect_x = scaleTime (xScale vp data) (date d),
             rect_y = scaleLinear (yVolumeScale vp data) (volume_number d),
             rect_fill = fill (volData data) d i,
             rect_width = 1,
             rect_height =
               map_option (\<lambda>y. height vp - y) (scaleLinear (yVolumeScale vp data) (volume_number d))\<rparr>)
         (enumerate 0 (volData data))"

text \<open>
  What one call of \<^verbatim>\<open>renderChart\<close> draws into its \<^verbatim>\<open>svg\<close>: the price path, the
  moving-average path and the volume bars (axes, crosshair primitives and styling carry
  no data of their own).
\<close>

record svg =
  priceChart :: "(real option \<times> real option) list"
  movingAverageChart :: "(real option \<times> real option) list"
  volumeBars :: "rect list"

text \<open>
  The page holds, for every mounted \<^verbatim>\<open>StockChart\<close> (named by a number), the \<^verbatim>\<open>svg\<close>
  children of its \<^verbatim>\<open><div className="chart" ref={chartRef}>\<close>, and the resize listeners
  of \<^verbatim>\<open>window\<close>, kept by d3 under their full type name \<^verbatim>\<open>resize.<name>\<close>. A listener is
  the closure \<^verbatim>\<open>resize\<close> of one chart; it is recorded as that chart.
\<close>

type_synonym chart = nat

record page =
  svgs :: "chart \<Rightarrow> svg list"
  listeners :: "string \<rightharpoonup> chart"

definition initial_page :: page where
  "initial_page = \<lparr>svgs = (\<lambda>c. []), listeners = Map.empty\<rparr>"

text \<open>
  The container of the \<^verbatim>\<open>svg\<close> is \<^verbatim>\<open>svg.node().parentNode\<close>, the \<^verbatim>\<open>div\<close> the component
  returns: \<^verbatim>\<open><div className="chart" ref={chartRef}></div>\<close>. It is given a class and
  no \<^verbatim>\<open>id\<close>.
\<close>

record element =
  className :: string
  attr_id :: "string option"

definition container :: "chart \<Rightarrow> element" where
  "container c = \<lparr>className = ''chart'', attr_id = None\<rparr>"

text \<open>\<^verbatim>\<open>'resize.' + container.attr('id')\<close>: \<^verbatim>\<open>attr\<close> returns \<^verbatim>\<open>null\<close> for an attribute that
  is not set, and string concatenation writes \<^verbatim>\<open>null\<close> as \<^verbatim>\<open>"null"\<close>.\<close>

definition js_plus :: "string \<Rightarrow> string option \<Rightarrow> string" where
  "js_plus s v = s @ (case v of None \<Rightarrow> ''null'' | Some t \<Rightarrow> t)"

text \<open>\<^verbatim>\<open>d3.select(window).on('resize.' + container.attr('id'), resize);\<close> A listener
  registered under a type name that is already taken replaces the earlier one.\<close>

definition responsivefy :: "chart \<Rightarrow> page \<Rightarrow> page" where
  "responsivefy c pg =
     pg\<lparr>listeners := (listeners pg)(js_plus ''resize.'' (attr_id (container c)) \<mapsto> c)\<rparr>"

text \<open>
  \<^verbatim>\<open>renderChart(data)\<close>: remove the chart's earlier \<^verbatim>\<open>svg\<close>, append a new one, make it
  responsive, draw. Called with \<^verbatim>\<open>null\<close> it would throw a \<^verbatim>\<open>TypeError\<close> where \<^verbatim>\<open>d3.min\<close>
  iterates over the rows.
\<close>

definition draw :: "viewport \<Rightarrow> ohlcv list \<Rightarrow> svg" where
  "draw vp data =
     \<lparr>priceChart = line vp data data,
      movingAverageChart = movingAverageLine vp data (movingAverageData data),
      volumeBars = vol vp data\<rparr>"

definition renderChart :: "chart \<Rightarrow> viewport \<Rightarrow> ohlcv list option \<Rightarrow> page \<Rightarrow> js_error + page" where
  "renderChart c vp data pg =
     (case data of
        None \<Rightarrow> Inl TypeError
      | Some rows \<Rightarrow> Inr (responsivefy c (pg\<lparr>svgs := (svgs pg)(c := [draw vp rows])\<rparr>)))"

text \<open>
  \<^verbatim>\<open>
  useEffect(() => {
      if (props.data && props.data.length > 0) { renderChart(props.data); }
  }, [props.data]);
  \<close>
\<close>

definition useEffect :: "chart \<Rightarrow> viewport \<Rightarrow> ohlcv list option \<Rightarrow> page \<Rightarrow> js_error + page" where
  "useEffect c vp props_data pg =
     (case props_data of
        None \<Rightarrow> Inr pg
      | Some rows \<Rightarrow> if length rows > 0 then renderChart c vp props_data pg else Inr pg)"

section \<open>Crosshair\<close>

text \<open>
  The lookup of \<^verbatim>\<open>generateCrosshair\<close>, for the date \<^verbatim>\<open>xScale.invert(mouse[0])\<close>:
  \<^verbatim>\<open>
  const i = bisectDate(data, correspondingDate, 1);
  let currentPoint;
  if (i === 0) { currentPoint = data[0]; }
  else if (i >= data.length) { currentPoint = data[data.length - 1]; }
  else {
      const d0 = data[i - 1];
      const d1 = data[i];
      currentPoint = correspondingDate - d0.date > d1.date - correspondingDate ? d1 : d0;
  }
  \<close>
  The three branches are named, so that a statement can say which one was taken.
  Reading a field of \<^verbatim>\<open>undefined\<close> throws a \<^verbatim>\<open>TypeError\<close>.
\<close>

datatype branch = AtFirst | AtLast | Between

definition crosshairBranch :: "nat \<Rightarrow> nat \<Rightarrow> branch" where
  "crosshairBranch i n = (if i = 0 then AtFirst else if i \<ge> n then AtLast else Between)"

definition selectPoint :: "ohlcv list \<Rightarrow> int \<Rightarrow> nat \<Rightarrow> js_error + ohlcv" where
  "selectPoint data correspondingDate i =
     (case crosshairBranch i (length data) of
        AtFirst \<Rightarrow> (case js_index data 0 of None \<Rightarrow> Inl TypeError | Some p \<Rightarrow> Inr p)
      | AtLast \<Rightarrow>
          (case js_index data (int (length data) - 1) of None \<Rightarrow> Inl TypeError | Some p \<Rightarrow> Inr p)
      | Between \<Rightarrow>
          (case (js_index data (int i - 1), js_index data (int i)) of
             (Some d0, Some d1) \<Rightarrow>
               Inr (if correspondingDate - date d0 > date d1 - correspondingDate then d1 else d0)
           | _ \<Rightarrow> Inl TypeError))"

definition currentPoint :: "ohlcv list \<Rightarrow> int \<Rightarrow> (js_error + ohlcv) option" where
  "currentPoint data correspondingDate =
     map_option (selectPoint data correspondingDate) (bisectDate data correspondingDate 1)"

section \<open>Series used in the statements\<close>

text \<open>The series is ordered by date, strictly increasing (the caller guarantees it;
  nothing in the component sorts).\<close>

definition date_ordered :: "ohlcv list \<Rightarrow> bool" where
  "date_ordered series = sorted_wrt (<) (map date series)"

text \<open>Three days closing at 10, 12 and 8 with volumes 100, 200 and 150, and a series of
  one day.\<close>

definition example_series :: "ohlcv list" where
  "example_series =
     [\<lparr>date = 10, openv = 10, high = 10, low = 10, close = 10, volume = Some 100\<rparr>,
      \<lparr>date = 20, openv = 12, high = 12, low = 12, close = 12, volume = Some 200\<rparr>,
      \<lparr>date = 30, openv = 8, high = 8, low = 8, close = 8, volume = Some 150\<rparr>]"

definition single_series :: "ohlcv list" where
  "single_series =
     [\<lparr>date = 10, openv = 7, high = 7, low = 7, close = 7, volume = None\<rparr>]"

definition example_viewport :: viewport where
  "example_viewport = \<lparr>innerWidth = 1100, innerHeight = 1000\<rparr>"

text \<open>A series with a day of volume zero between two traded days: the close falls from
  10 to 5 and rises to 8.\<close>

definition gap_series :: "ohlcv list" where
  "gap_series =
     [\<lparr>date = 10, openv = 10, high = 10, low = 10, close = 10, volume = Some 100\<rparr>,
      \<lparr>date = 20, openv = 5, high = 5, low = 5, close = 5, volume = Some 0\<rparr>,
      \<lparr>date = 30, openv = 8, high = 8, low = 8, close = 8, volume = Some 150\<rparr>]"

text \<open>Sixty days, day \<open>n\<close> closing at \<open>n\<close>.\<close>

definition long_series :: "ohlcv list" where
  "long_series =
     map (\<lambda>n. \<lparr>date = int n, openv = real n, high = real n, low = real n, close = real n,
                volume = Some 1\<rparr>)
       [0..<60]"

text \<open>One day closing at \<open>10^17\<close>, which is a double.\<close>

definition huge_series :: "ohlcv list" where
  "huge_series =
     [\<lparr>date = 10, openv = 10 ^ 17, high = 10 ^ 17, low = 10 ^ 17, close = 10 ^ 17,
       volume = None\<rparr>]"

text \<open>What the chart \<open>c\<close> shows after an effect, if the effect returned.\<close>

definition shown :: "chart \<Rightarrow> js_error + page \<Rightarrow> svg list option" where
  "shown c r = (case r of Inl e \<Rightarrow> None | Inr pg \<Rightarrow> Some (svgs pg c))"

text \<open>Two effects in a row; an exception ends the sequence.\<close>

definition after :: "js_error + page \<Rightarrow> (page \<Rightarrow> js_error + page) \<Rightarrow> js_error + page" where
  "after r f = (case r of Inl e \<Rightarrow> Inl e | Inr pg \<Rightarrow> f pg)"

section \<open>Properties of the moving average\<close>

lemma foldl_close_acc: "foldl (\<lambda>a b. a + close b) s xs = s + sum_list (map close xs)"
  by (induction xs arbitrary: s) simp_all

lemma reduce_close: "foldl (\<lambda>a b. a + close b) 0 xs = sum_list (map close xs)"
  by (simp add: foldl_close_acc)

lemma length_slice: "stop \<le> length xs \<Longrightarrow> length (slice xs start stop) = stop - start"
  by (simp add: slice_def)

lemma nth_slice:
  "stop \<le> length xs \<Longrightarrow> k < stop - start \<Longrightarrow> slice xs start stop ! k = xs ! (start + k)"
  by (simp add: slice_def)

lemma sum_list_slice:
  fixes f :: "'a \<Rightarrow> real"
  assumes "stop \<le> length xs"
  shows "sum_list (map f (slice xs start stop)) = (\<Sum>k = start..<stop. f (xs ! k))"
proof -
  have "sum_list (map f (slice xs start stop))
          = (\<Sum>k = 0..<stop - start. map f (slice xs start stop) ! k)"
    using assms by (simp add: sum_list_sum_nth length_slice)
  also have "\<dots> = (\<Sum>k = 0..<stop - start. f (xs ! (start + k)))"
    using assms by (intro sum.cong) (simp_all add: length_slice nth_slice)
  also have "\<dots> = (\<Sum>k = start..<stop. f (xs ! k))"
  proof (cases "start \<le> stop")
    case True
    have "(\<Sum>k = start..<stop. f (xs ! k)) = (\<Sum>k = 0 + start..<(stop - start) + start. f (xs ! k))"
      using True by simp
    also have "\<dots> = (\<Sum>k = 0..<stop - start. f (xs ! (k + start)))"
      by (rule sum.shift_bounds_nat_ivl)
    finally show ?thesis by (simp add: add.commute)
  next
    case False
    then show ?thesis by simp
  qed
  finally show ?thesis .
qed

lemma window_start: "nat (max 0 (int i - int w)) = i - w"
  by simp

lemma movingAverage_length: "length (movingAverage data w) = length data"
  by (simp add: movingAverage_def)

lemma movingAverage_nth:
  assumes "i < length data"
  shows "movingAverage data w ! i =
           \<lparr>date = date (data ! i),
            average = (\<Sum>k = i - w..<Suc i. close (data ! k)) / real (Suc i - (i - w))\<rparr>"
proof -
  have stop: "Suc i \<le> length data"
    using assms by simp
  have "movingAverage data w ! i =
          (let subset = slice data (i - w) (Suc i)
           in \<lparr>date = date (data ! i),
               average = sum_list (map close subset) / real (length subset)\<rparr>)"
    using assms by (simp add: movingAverage_def nth_enumerate_eq reduce_close Let_def window_start)
  then show ?thesis
    using stop by (simp add: Let_def sum_list_slice length_slice)
qed

text \<open>
  Claim C1. For every series and every window parameter \<open>w\<close>, \<open>movingAverage series w\<close>
  has the length of the series, its \<open>i\<close>-th date is the \<open>i\<close>-th date of the series, and its
  \<open>i\<close>-th average is the arithmetic mean of \<open>close\<close> over the indices from
  \<open>max 0 (i - w)\<close> to \<open>i\<close> inclusive (there are \<open>i - max 0 (i - w) + 1\<close> of them, which is
  \<open>i + 1\<close> while \<open>i < w\<close>). In particular the first average is the first close, and a series
  of one row yields the one point carrying that row's date and close.
\<close>

theorem movingAverage_mean:
  "length (movingAverage series w) = length series
   \<and> (\<forall>i < length series.
        date (movingAverage series w ! i) = date (series ! i)
        \<and> average (movingAverage series w ! i)
            = (\<Sum>k \<in> {nat (max 0 (int i - int w)) .. i}. close (series ! k))
                / real (card {nat (max 0 (int i - int w)) .. i})
        \<and> (i < w \<longrightarrow> card {nat (max 0 (int i - int w)) .. i} = i + 1))
   \<and> (series \<noteq> [] \<longrightarrow> average (movingAverage series w ! 0) = close (series ! 0))
   \<and> movingAverage [r] w = [\<lparr>date = date r, average = close r\<rparr>]"
proof (intro conjI allI impI)
  show "length (movingAverage series w) = length series"
    by (rule movingAverage_length)
next
  fix i assume "i < length series"
  then show "date (movingAverage series w ! i) = date (series ! i)"
    by (simp add: movingAverage_nth)
next
  fix i assume i: "i < length series"
  have ivl: "{i - w .. i} = {i - w ..< Suc i}"
    by auto
  show "average (movingAverage series w ! i)
          = (\<Sum>k \<in> {nat (max 0 (int i - int w)) .. i}. close (series ! k))
              / real (card {nat (max 0 (int i - int w)) .. i})"
    using i unfolding window_start ivl by (simp add: movingAverage_nth)
next
  fix i assume "i < length series" "i < w"
  then show "card {nat (max 0 (int i - int w)) .. i} = i + 1"
    unfolding window_start by simp
next
  assume "series \<noteq> []"
  then have "0 < length series"
    by simp
  then show "average (movingAverage series w ! 0) = close (series ! 0)"
    by (simp add: movingAverage_nth)
next
  have "movingAverage [r] w ! 0 = \<lparr>date = date r, average = close r\<rparr>"
    using movingAverage_nth [of 0 "[r]" w] by simp
  moreover have "length (movingAverage [r] w) = 1"
    by (simp add: movingAverage_length)
  ultimately show "movingAverage [r] w = [\<lparr>date = date r, average = close r\<rparr>]"
    by (cases "movingAverage [r] w") simp_all
qed


theorem movingAverage_mean_witness:
  "length (movingAverage example_series 2) = 3
   \<and> date (movingAverage example_series 2 ! 2) = 30
   \<and> average (movingAverage example_series 2 ! 0) = 10
   \<and> average (movingAverage example_series 2 ! 1) = 11
   \<and> average (movingAverage example_series 2 ! 2) = 10"
proof -
  have len: "length example_series = 3" "example_series \<noteq> []"
    by (simp_all add: example_series_def)
  have set1: "{0..Suc 0} = {0, Suc 0}" and set2: "{0..2::nat} = {0, Suc 0, 2}"
    by auto
  note th = movingAverage_mean [of example_series 2]
  from th len have "length (movingAverage example_series 2) = 3"
    by simp
  moreover from th len
  have "date (movingAverage example_series 2 ! 2) = date (example_series ! 2)"
    by simp
  moreover from th len
  have "average (movingAverage example_series 2 ! 1)
          = (\<Sum>k \<in> {nat (max 0 (int 1 - int 2)) .. 1}. close (example_series ! k))
              / real (card {nat (max 0 (int 1 - int 2)) .. 1::nat})"
    by simp
  moreover from th len
  have "average (movingAverage example_series 2 ! 2)
          = (\<Sum>k \<in> {nat (max 0 (int 2 - int 2)) .. 2}. close (example_series ! k))
              / real (card {nat (max 0 (int 2 - int 2)) .. 2::nat})"
    by simp
  moreover from th len
  have "average (movingAverage example_series 2 ! 0) = close (example_series ! 0)"
    by blast
  ultimately show ?thesis
    by (simp add: example_series_def set1 set2)
qed

section \<open>Properties of the insertion-point search\<close>

lemma date_ordered_less:
  "date_ordered a \<Longrightarrow> i < j \<Longrightarrow> j < length a \<Longrightarrow> date (a ! i) < date (a ! j)"
  unfolding date_ordered_def using sorted_wrt_nth_less [of "(<)" "map date a" i j] by simp

lemma date_ordered_le:
  "date_ordered a \<Longrightarrow> i \<le> j \<Longrightarrow> j < length a \<Longrightarrow> date (a ! i) \<le> date (a ! j)"
  using date_ordered_less [of a i j] by (cases "i = j") auto

lemma bisect_left_done: "\<not> lo < hi \<Longrightarrow> bisect_left a x lo hi = Some lo"
  by (subst bisect_left.simps) simp

lemma bisect_left_step:
  assumes "lo < hi" "hi < 2 ^ 31"
  shows "bisect_left a x lo hi =
           (if date (a ! ((lo + hi) div 2)) < x then bisect_left a x ((lo + hi) div 2 + 1) hi
            else bisect_left a x lo ((lo + hi) div 2))"
proof -
  have "lo + hi < 2 ^ 32"
    using assms by simp
  then have "(lo + hi) mod 2 ^ 32 = lo + hi"
    by simp
  then show ?thesis
    using assms by (subst bisect_left.simps) (simp add: Let_def)
qed

lemma bisect_left_partition:
  assumes "date_ordered a" "lo \<le> hi" "hi \<le> length a" "length a < 2 ^ 31"
  shows "\<exists>j. bisect_left a x lo hi = Some j \<and> lo \<le> j \<and> j \<le> hi
            \<and> (\<forall>k. lo \<le> k \<and> k < j \<longrightarrow> date (a ! k) < x)
            \<and> (\<forall>k. j \<le> k \<and> k < hi \<longrightarrow> x \<le> date (a ! k))"
  using assms(2,3)
proof (induction "hi - lo" arbitrary: lo hi rule: less_induct)
  case less
  show ?case
  proof (cases "lo < hi")
    case False
    with less.prems have "lo = hi" by simp
    then show ?thesis
      by (simp add: bisect_left_done)
  next
    case True
    define mid where "mid = (lo + hi) div 2"
    have mid: "lo \<le> mid" "mid < hi"
      using True by (simp_all add: mid_def)
    have hi: "hi < 2 ^ 31"
      using less.prems assms(4) by simp
    show ?thesis
    proof (cases "date (a ! mid) < x")
      case below: True
      have "hi - (mid + 1) < hi - lo"
        using mid by simp
      from less.hyps [OF this] mid less.prems
      obtain j where j: "bisect_left a x (mid + 1) hi = Some j" "mid + 1 \<le> j" "j \<le> hi"
        "\<forall>k. mid + 1 \<le> k \<and> k < j \<longrightarrow> date (a ! k) < x"
        "\<forall>k. j \<le> k \<and> k < hi \<longrightarrow> x \<le> date (a ! k)"
        by force
      have "date (a ! k) < x" if "lo \<le> k" "k < j" for k
      proof (cases "k \<le> mid")
        case True
        then have "date (a ! k) \<le> date (a ! mid)"
          using assms(1) mid less.prems by (intro date_ordered_le) simp_all
        with below show ?thesis by simp
      next
        case False
        with that j(4) show ?thesis by simp
      qed
      moreover have "bisect_left a x lo hi = Some j"
        using True hi below j(1) by (simp add: bisect_left_step mid_def)
      ultimately show ?thesis
        using j mid by auto
    next
      case above: False
      have "mid - lo < hi - lo"
        using mid by simp
      from less.hyps [OF this] mid less.prems
      obtain j where j: "bisect_left a x lo mid = Some j" "lo \<le> j" "j \<le> mid"
        "\<forall>k. lo \<le> k \<and> k < j \<longrightarrow> date (a ! k) < x"
        "\<forall>k. j \<le> k \<and> k < mid \<longrightarrow> x \<le> date (a ! k)"
        by force
      have "x \<le> date (a ! k)" if "j \<le> k" "k < hi" for k
      proof (cases "mid \<le> k")
        case True
        then have "date (a ! mid) \<le> date (a ! k)"
          using assms(1) that less.prems by (intro date_ordered_le) simp_all
        with above show ?thesis by simp
      next
        case False
        with that j(5) show ?thesis by simp
      qed
      moreover have "bisect_left a x lo hi = Some j"
        using True hi above j(1) by (simp add: bisect_left_step mid_def)
      ultimately show ?thesis
        using j mid by auto
    qed
  qed
qed


lemma bisect_left_bounds:
  assumes "lo \<le> hi" "hi < 2 ^ 31"
  shows "\<exists>j. bisect_left a x lo hi = Some j \<and> lo \<le> j \<and> j \<le> hi"
  using assms
proof (induction "hi - lo" arbitrary: lo hi rule: less_induct)
  case less
  show ?case
  proof (cases "lo < hi")
    case False
    with less.prems show ?thesis
      by (simp add: bisect_left_done)
  next
    case True
    define mid where "mid = (lo + hi) div 2"
    have mid: "lo \<le> mid" "mid < hi"
      using True by (simp_all add: mid_def)
    have up: "\<exists>j. bisect_left a x (mid + 1) hi = Some j \<and> mid + 1 \<le> j \<and> j \<le> hi"
      using mid less.prems by (intro less.hyps) simp_all
    have down: "\<exists>j. bisect_left a x lo mid = Some j \<and> lo \<le> j \<and> j \<le> mid"
      using mid less.prems by (intro less.hyps) simp_all
    show ?thesis
    proof (cases "date (a ! mid) < x")
      case True
      with up mid \<open>lo < hi\<close> less.prems show ?thesis
        by (auto simp: bisect_left_step mid_def)
    next
      case False
      with down mid \<open>lo < hi\<close> less.prems show ?thesis
        by (auto simp: bisect_left_step mid_def)
    qed
  qed
qed

lemma bisectDate_from_1:
  assumes "length a < 2 ^ 31"
  shows "\<exists>i. bisectDate a x 1 = Some i \<and> 1 \<le> i \<and> (a \<noteq> [] \<longrightarrow> i \<le> length a)"
proof (cases "a = []")
  case True
  then show ?thesis
    by (simp add: bisectDate_def bisect_left_done)
next
  case False
  then have "1 \<le> length a"
    by (cases a) simp_all
  from bisect_left_bounds [OF this assms, of a x] show ?thesis
    by (auto simp: bisectDate_def)
qed

lemma bisectDate_between:
  assumes "date_ordered a" "length a < 2 ^ 31" "0 < i" "i < length a"
    and "date (a ! (i - 1)) < x" "x \<le> date (a ! i)"
  shows "bisectDate a x 1 = Some i"
proof -
  have "1 \<le> length a"
    using assms(3,4) by simp
  from bisect_left_partition [OF assms(1) this _ assms(2), of x]
  obtain j where j: "bisect_left a x 1 (length a) = Some j" "1 \<le> j" "j \<le> length a"
    "\<forall>k. 1 \<le> k \<and> k < j \<longrightarrow> date (a ! k) < x"
    "\<forall>k. j \<le> k \<and> k < length a \<longrightarrow> x \<le> date (a ! k)"
    by auto
  have "\<not> j < i"
  proof
    assume "j < i"
    then have "j \<le> i - 1" "i - 1 < length a"
      using assms(4) by simp_all
    with j(5) have "x \<le> date (a ! (i - 1))"
      by blast
    with assms(5) show False by simp
  qed
  moreover have "\<not> i < j"
  proof
    assume "i < j"
    with j(4) assms(3) have "date (a ! i) < x"
      by simp
    with assms(6) show False by simp
  qed
  ultimately have "j = i"
    by simp
  with j(1) show ?thesis
    by (simp add: bisectDate_def)
qed

lemma bisectDate_before_first:
  assumes "date_ordered a" "length a < 2 ^ 31" "a \<noteq> []" "x \<le> date (a ! 0)"
  shows "bisectDate a x 1 = Some 1"
proof -
  have len: "1 \<le> length a"
    using assms(3) by (cases a) simp_all
  from bisect_left_partition [OF assms(1) this _ assms(2), of x]
  obtain j where j: "bisect_left a x 1 (length a) = Some j" "1 \<le> j" "j \<le> length a"
    "\<forall>k. 1 \<le> k \<and> k < j \<longrightarrow> date (a ! k) < x"
    by auto
  have "\<not> 1 < j"
  proof
    assume "1 < j"
    with j(4) have "date (a ! 1) < x"
      by simp
    moreover have "date (a ! 0) < date (a ! 1)"
      using assms(1) \<open>1 < j\<close> j(3) by (intro date_ordered_less) simp_all
    ultimately show False
      using assms(4) by simp
  qed
  with j(2) have "j = 1" by simp
  with j(1) show ?thesis
    by (simp add: bisectDate_def)
qed

lemma bisectDate_after_last:
  assumes "date_ordered a" "length a < 2 ^ 31" "a \<noteq> []" "date (last a) < x"
  shows "bisectDate a x 1 = Some (length a)"
proof -
  have len: "1 \<le> length a"
    using assms(3) by (cases a) simp_all
  from bisect_left_partition [OF assms(1) this _ assms(2), of x]
  obtain j where j: "bisect_left a x 1 (length a) = Some j" "1 \<le> j" "j \<le> length a"
    "\<forall>k. j \<le> k \<and> k < length a \<longrightarrow> x \<le> date (a ! k)"
    by auto
  have "\<not> j < length a"
  proof
    assume lt: "j < length a"
    with j(4) have "x \<le> date (a ! j)"
      by simp
    moreover have "date (a ! j) \<le> date (a ! (length a - 1))"
      using assms(1) lt by (intro date_ordered_le) simp_all
    ultimately show False
      using assms(3,4) by (simp add: last_conv_nth)
  qed
  with j(3) have "j = length a" by simp
  with j(1) show ?thesis
    by (simp add: bisectDate_def)
qed


lemma example_series_ordered: "date_ordered example_series"
  by (simp add: date_ordered_def example_series_def)

lemma single_series_ordered: "date_ordered single_series"
  by (simp add: date_ordered_def single_series_def)

section \<open>Properties of the crosshair lookup\<close>

text \<open>
  Claim C2. For a date-ordered series (of fewer than \<open>2^31\<close> rows, so that the search's
  32-bit midpoint is the true midpoint) and a target date strictly between the dates of
  the rows \<open>i - 1\<close> and \<open>i\<close>, the crosshair lookup returns the one of these two rows whose
  date is nearer to the target, and the earlier row when both are equally near.
\<close>

theorem nearest_between:
  assumes "date_ordered series" "length series < 2 ^ 31"
    and "0 < i" "i < length series"
    and "date (series ! (i - 1)) < t" "t < date (series ! i)"
  shows "currentPoint series t =
           Some (Inr (if \<bar>t - date (series ! (i - 1))\<bar> \<le> \<bar>date (series ! i) - t\<bar>
                      then series ! (i - 1) else series ! i))"
proof -
  have "bisectDate series t 1 = Some i"
    using assms by (intro bisectDate_between) simp_all
  moreover have "crosshairBranch i (length series) = Between"
    using assms(3,4) by (simp add: crosshairBranch_def)
  moreover have "js_index series (int i - 1) = Some (series ! (i - 1))"
    "js_index series (int i) = Some (series ! i)"
    using assms(3,4) by (simp_all add: js_index_def nat_diff_distrib')
  ultimately show ?thesis
    using assms(5,6) by (auto simp: currentPoint_def selectPoint_def)
qed


theorem nearest_between_witness:
  "date_ordered example_series \<and> length example_series < 2 ^ 31
   \<and> date (example_series ! (1 - 1)) < 15 \<and> 15 < date (example_series ! 1)
   \<and> currentPoint example_series 15 = Some (Inr (example_series ! 0))"
proof -
  have h: "length example_series < 2 ^ 31" "0 < (1::nat)" "1 < length example_series"
    "date (example_series ! (1 - 1)) < 15" "15 < date (example_series ! 1)"
    by (simp_all add: example_series_def)
  from nearest_between [OF example_series_ordered h]
  have "currentPoint example_series 15 = Some (Inr (example_series ! 0))"
    by (simp add: example_series_def)
  with h example_series_ordered show ?thesis
    by simp
qed

text \<open>
  Claim C4. For a non-empty date-ordered series (of fewer than \<open>2^31\<close> rows), the
  crosshair lookup returns the first row for a target date before the first row's date,
  and the last row for a target date after the last row's date.
\<close>

theorem boundary_lookup:
  assumes "date_ordered series" "length series < 2 ^ 31" "series \<noteq> []"
  shows "(t < date (series ! 0) \<longrightarrow> currentPoint series t = Some (Inr (series ! 0)))
       \<and> (date (last series) < t \<longrightarrow> currentPoint series t = Some (Inr (last series)))"
proof (intro conjI impI)
  assume before: "t < date (series ! 0)"
  then have i: "bisectDate series t 1 = Some 1"
    using assms by (intro bisectDate_before_first) simp_all
  show "currentPoint series t = Some (Inr (series ! 0))"
  proof (cases "length series = 1")
    case True
    then show ?thesis
      using i by (simp add: currentPoint_def selectPoint_def crosshairBranch_def js_index_def)
  next
    case False
    with assms(3) have len: "1 < length series"
      by (cases series) auto
    then have "date (series ! 0) < date (series ! 1)"
      using assms(1) by (intro date_ordered_less) simp_all
    with before len i assms(3) show ?thesis
      by (simp add: currentPoint_def selectPoint_def crosshairBranch_def js_index_def)
  qed
next
  assume "date (last series) < t"
  then have "bisectDate series t 1 = Some (length series)"
    using assms by (intro bisectDate_after_last) simp_all
  then show "currentPoint series t = Some (Inr (last series))"
    using assms(3)
    by (simp add: currentPoint_def selectPoint_def crosshairBranch_def js_index_def
        last_conv_nth nat_diff_distrib')
qed


theorem boundary_lookup_witness:
  "date_ordered example_series \<and> length example_series < 2 ^ 31 \<and> example_series \<noteq> []
   \<and> 5 < date (example_series ! 0) \<and> date (last example_series) < 35
   \<and> currentPoint example_series 5 = Some (Inr (example_series ! 0))
   \<and> currentPoint example_series 35 = Some (Inr (last example_series))"
proof -
  have h: "length example_series < 2 ^ 31" "example_series \<noteq> []"
    by (simp_all add: example_series_def)
  have t: "5 < date (example_series ! 0)" "date (last example_series) < 35"
    by (simp_all add: example_series_def)
  from boundary_lookup [OF example_series_ordered h, of 5] t(1)
  have "currentPoint example_series 5 = Some (Inr (example_series ! 0))"
    by blast
  moreover from boundary_lookup [OF example_series_ordered h, of 35] t(2)
  have "currentPoint example_series 35 = Some (Inr (last example_series))"
    by blast
  ultimately show ?thesis
    using h t example_series_ordered by simp
qed


section \<open>The moving-average overlay\<close>

text \<open>
  Claim C7. The moving-average path that is drawn has one point for every row, and
  point \<open>i\<close> is the scaled date of row \<open>i\<close> with the scaled mean of \<open>close\<close> over the rows
  from \<open>max 0 (i - 49)\<close> to \<open>i\<close>: 49 rows of lookback and the current one, a window of
  at most 50 rows, and of exactly 50 from index 49 on.
\<close>

theorem overlay_window:
  "length (movingAverageChart (draw vp data)) = length data
   \<and> (\<forall>i < length data.
        movingAverageChart (draw vp data) ! i
          = (scaleTime (xScale vp data) (date (data ! i)),
             scaleLinear (yScale vp data)
               ((\<Sum>k \<in> {nat (max 0 (int i - 49)) .. i}. close (data ! k))
                  / real (card {nat (max 0 (int i - 49)) .. i})))
        \<and> card {nat (max 0 (int i - 49)) .. i} \<le> 50
        \<and> (49 \<le> i \<longrightarrow> card {nat (max 0 (int i - 49)) .. i} = 50))"
proof (intro conjI allI impI)
  show "length (movingAverageChart (draw vp data)) = length data"
    by (simp add: draw_def movingAverageLine_def movingAverageData_def movingAverage_length)
next
  fix i assume i: "i < length data"
  have start: "nat (max 0 (int i - 49)) = i - 49"
    by simp
  have ivl: "{i - 49 .. i} = {i - 49 ..< Suc i}"
    by auto
  have "movingAverageChart (draw vp data) ! i
          = (scaleTime (xScale vp data) (date (movingAverage data 49 ! i)),
             scaleLinear (yScale vp data) (average (movingAverage data 49 ! i)))"
    using i by (simp add: draw_def movingAverageLine_def movingAverageData_def movingAverage_length)
  then show "movingAverageChart (draw vp data) ! i
          = (scaleTime (xScale vp data) (date (data ! i)),
             scaleLinear (yScale vp data)
               ((\<Sum>k \<in> {nat (max 0 (int i - 49)) .. i}. close (data ! k))
                  / real (card {nat (max 0 (int i - 49)) .. i})))"
    using i unfolding start ivl by (simp add: movingAverage_nth)
  show "card {nat (max 0 (int i - 49)) .. i} \<le> 50"
    unfolding start by simp
  show "card {nat (max 0 (int i - 49)) .. i} = 50" if "49 \<le> i"
    using that unfolding start by simp
qed

theorem overlay_window_witness:
  "55 < length long_series \<and> (49::nat) \<le> 55
   \<and> card {nat (max 0 (int 55 - 49)) .. 55} = 50
   \<and> movingAverageChart (draw example_viewport long_series) ! 55
       = (scaleTime (xScale example_viewport long_series) 55,
          scaleLinear (yScale example_viewport long_series) (61 / 2))"
proof -
  have len: "55 < length long_series"
    by (simp add: long_series_def)
  have row: "close (long_series ! k) = real k" if "k < 60" for k
    using that by (simp add: long_series_def)
  have day: "date (long_series ! 55) = 55"
    by (simp add: long_series_def)
  have "(\<Sum>k \<in> {6..55}. close (long_series ! k)) = (\<Sum>k \<in> {6..55}. real k)"
    by (intro sum.cong) (simp_all add: row)
  also have "\<dots> = real (\<Sum>{6..55})"
    by simp
  also have "\<dots> = 1525"
    by (simp add: Sum_Icc_nat)
  finally have total: "(\<Sum>k \<in> {6..55}. close (long_series ! k)) = 1525" .
  from overlay_window [of example_viewport long_series] len
  have "movingAverageChart (draw example_viewport long_series) ! 55
          = (scaleTime (xScale example_viewport long_series) (date (long_series ! 55)),
             scaleLinear (yScale example_viewport long_series)
               ((\<Sum>k \<in> {nat (max 0 (int 55 - 49)) .. 55}. close (long_series ! k))
                  / real (card {nat (max 0 (int 55 - 49)) .. 55})))"
    and "card {nat (max 0 (int 55 - 49)) .. 55} = 50"
    by simp_all
  then show ?thesis
    using len by (simp add: day total)
qed

section \<open>Volume bars\<close>

lemma vol_length: "length (vol vp data) = length (volData data)"
  by (simp add: vol_def)

lemma vol_fill_nth:
  "i < length (volData data) \<Longrightarrow>
     rect_fill (vol vp data ! i) = fill (volData data) (volData data ! i) i"
  by (simp add: vol_def nth_enumerate_eq)

lemma volData_gap: "volData gap_series = [gap_series ! 0, gap_series ! 2]"
  by (simp add: volData_def gap_series_def)

text \<open>
  Claim C3. The bars are drawn for \<open>volData\<close>, the rows of non-null, non-zero volume in
  series order. The first bar has the rising colour \<^verbatim>\<open>#03a678\<close>; a later bar \<open>i\<close> has the
  falling colour \<^verbatim>\<open>#c0392b\<close> exactly when the close of row \<open>i - 1\<close> of \<open>volData\<close> (the
  previous bar, not the previous row of the series) is greater than its own close; no
  other colour occurs.
\<close>

theorem volume_colors:
  "length (vol vp data) = length (volData data)
   \<and> volumeBars (draw vp data) = vol vp data
   \<and> (volData data \<noteq> [] \<longrightarrow> rect_fill (vol vp data ! 0) = ''#03a678'')
   \<and> (\<forall>i. 0 < i \<and> i < length (volData data) \<longrightarrow>
         (rect_fill (vol vp data ! i) = ''#c0392b'')
           = (close (volData data ! (i - 1)) > close (volData data ! i)))
   \<and> (\<forall>b \<in> set (vol vp data). rect_fill b = ''#03a678'' \<or> rect_fill b = ''#c0392b'')"
proof (intro conjI allI impI ballI)
  show "length (vol vp data) = length (volData data)"
    by (rule vol_length)
  show "volumeBars (draw vp data) = vol vp data"
    by (simp add: draw_def)
next
  assume "volData data \<noteq> []"
  then have "0 < length (volData data)"
    by simp
  then show "rect_fill (vol vp data ! 0) = ''#03a678''"
    by (simp add: vol_fill_nth fill_def)
next
  fix i assume "0 < i \<and> i < length (volData data)"
  then show "(rect_fill (vol vp data ! i) = ''#c0392b'')
               = (close (volData data ! (i - 1)) > close (volData data ! i))"
    by (simp add: vol_fill_nth fill_def)
next
  fix b assume "b \<in> set (vol vp data)"
  then obtain i where "i < length (vol vp data)" "b = vol vp data ! i"
    by (auto simp: in_set_conv_nth)
  then show "rect_fill b = ''#03a678'' \<or> rect_fill b = ''#c0392b''"
    by (simp add: vol_length vol_fill_nth fill_def)
qed

theorem volume_colors_witness:
  "volData gap_series = [gap_series ! 0, gap_series ! 2]
   \<and> map rect_fill (vol example_viewport gap_series) = [''#03a678'', ''#c0392b'']
   \<and> close (gap_series ! 1) < close (gap_series ! 2)"
proof -
  note th = volume_colors [of example_viewport gap_series]
  have len: "length (volData gap_series) = 2"
    by (simp add: volData_gap)
  from th len have l: "length (vol example_viewport gap_series) = 2"
    by simp
  from th len have "rect_fill (vol example_viewport gap_series ! 0) = ''#03a678''"
    by auto
  moreover from th len
  have "(rect_fill (vol example_viewport gap_series ! 1) = ''#c0392b'')
          = (close (volData gap_series ! (1 - 1)) > close (volData gap_series ! 1))"
    by simp
  then have "rect_fill (vol example_viewport gap_series ! 1) = ''#c0392b''"
    by (simp add: volData_gap) (simp add: gap_series_def)
  ultimately have "map rect_fill (vol example_viewport gap_series) = [''#03a678'', ''#c0392b'']"
    using l by (auto simp: list_eq_iff_nth_eq less_Suc_eq numeral_2_eq_2)
  then show ?thesis
    by (simp add: volData_gap) (simp add: gap_series_def)
qed

section \<open>Properties of the rounding\<close>

lemma binade_eq:
  assumes "2 ^ n \<le> \<bar>x\<bar>" "\<bar>x\<bar> < 2 ^ Suc n"
  shows "binade x = int n"
proof -
  have pos: "0 < \<bar>x\<bar>"
    using assms(1) by (smt (verit) zero_less_power)
  have "(2::real) powr real_of_int (int n) = 2 ^ n"
    "(2::real) powr real_of_int (int n + 1) = 2 ^ Suc n"
    by (simp_all add: powr_realpow powr_add)
  with assms have "\<lfloor>log 2 \<bar>x\<bar>\<rfloor> = int n"
    using floor_log_eq_powr_iff [OF pos, of 2 "int n"] by simp
  then show ?thesis
    by (simp add: binade_def)
qed

lemma binade_le_52:
  assumes "x \<noteq> 0" "\<bar>x\<bar> < 2 ^ 53"
  shows "binade x \<le> 52"
proof -
  have "log 2 \<bar>x\<bar> < 53"
    using assms by (simp add: log_less_iff powr_numeral)
  then have "\<lfloor>log 2 \<bar>x\<bar>\<rfloor> \<le> 52"
    by (simp add: floor_le_iff)
  then show ?thesis
    by (simp add: binade_def)
qed

lemma ulp_pos: "0 < ulp x"
  by (simp add: ulp_def Let_def)

lemma ulp_le_8:
  assumes "x \<noteq> 0" "\<bar>x\<bar> < 2 ^ 56"
  shows "ulp x \<le> 8"
proof -
  have "log 2 \<bar>x\<bar> < 56"
    using assms by (simp add: log_less_iff powr_numeral)
  then have "\<lfloor>log 2 \<bar>x\<bar>\<rfloor> \<le> 55"
    by (simp add: floor_le_iff)
  then have e: "binade x - 52 \<le> 3"
    by (simp add: binade_def)
  show ?thesis
  proof (cases "0 \<le> binade x - 52")
    case True
    with e have "nat (binade x - 52) \<le> 3"
      by simp
    then have "(2::real) ^ nat (binade x - 52) \<le> 2 ^ 3"
      by (intro power_increasing) simp_all
    with True show ?thesis
      by (simp add: ulp_def Let_def)
  next
    case False
    moreover have "1 / 2 ^ k \<le> (8::real)" for k :: nat
    proof -
      have "1 / 2 ^ k \<le> (1::real)"
        by (simp add: field_simps)
      then show ?thesis
        by linarith
    qed
    ultimately show ?thesis
      by (simp add: ulp_def Let_def)
  qed
qed

lemma ulp_le_one:
  assumes "x \<noteq> 0" "\<bar>x\<bar> < 2 ^ 53"
  shows "ulp x \<le> 1"
proof (cases "binade x = 52")
  case True
  then show ?thesis
    by (simp add: ulp_def)
next
  case False
  with binade_le_52 [OF assms] have "\<not> 0 \<le> binade x - 52"
    by simp
  moreover have "1 / 2 ^ k \<le> (1::real)" for k :: nat
    by (simp add: field_simps)
  ultimately show ?thesis
    by (simp add: ulp_def Let_def)
qed

lemma round_half_even_error: "\<bar>of_int (round_half_even y) - y\<bar> \<le> 1 / 2"
proof -
  have "of_int \<lfloor>y\<rfloor> \<le> y" "y < of_int \<lfloor>y\<rfloor> + 1"
    by linarith+
  then show ?thesis
    by (auto simp: round_half_even_def Let_def)
qed

lemma round_half_even_of_int: "round_half_even (of_int k) = k"
  by (simp add: round_half_even_def)

lemma double_round_error: "\<bar>double_round x - x\<bar> \<le> ulp x / 2"
proof (cases "x = 0")
  case True
  then show ?thesis
    using ulp_pos [of 0] by (simp add: double_round_def)
next
  case False
  define u where "u = ulp x"
  have u: "0 < u"
    unfolding u_def by (rule ulp_pos)
  have "double_round x - x = (of_int (round_half_even (x / u)) - x / u) * u"
    using False u by (simp add: double_round_def u_def algebra_simps)
  then have "\<bar>double_round x - x\<bar> = \<bar>of_int (round_half_even (x / u)) - x / u\<bar> * u"
    using u by (simp add: abs_mult)
  also have "\<dots> \<le> 1 / 2 * u"
    using u round_half_even_error [of "x / u"] by (intro mult_right_mono) simp_all
  finally show ?thesis
    by (simp add: u_def)
qed

lemma double_round_int:
  assumes "x \<in> \<int>" "\<bar>x\<bar> < 2 ^ 53"
  shows "double_round x = x"
proof (cases "x = 0")
  case True
  then show ?thesis
    by (simp add: double_round_def)
next
  case False
  from assms(1) obtain k where k: "x = of_int k"
    by (auto elim: Ints_cases)
  define n where "n = nat (52 - binade x)"
  have e: "binade x - 52 \<le> 0"
    using binade_le_52 [OF False assms(2)] by simp
  have u: "ulp x = 1 / 2 ^ n"
  proof (cases "binade x = 52")
    case True
    then show ?thesis
      by (simp add: ulp_def n_def)
  next
    case False
    with e show ?thesis
      by (simp add: ulp_def Let_def n_def)
  qed
  have "x / ulp x = x * 2 ^ n"
    by (simp add: u)
  also have "\<dots> = of_int (k * 2 ^ n)"
    by (simp add: k)
  finally have "round_half_even (x / ulp x) = k * 2 ^ n"
    by (simp only: round_half_even_of_int)
  then have "double_round x = of_int (k * 2 ^ n) * (1 / 2 ^ n)"
    using False by (simp add: double_round_def u)
  then show ?thesis
    by (simp add: k)
qed

lemma double_round_1e17: "double_round (10 ^ 17) = 10 ^ 17"
proof -
  have "binade (10 ^ 17) = int 56"
    by (rule binade_eq) simp_all
  then have "ulp (10 ^ 17) = 16"
    by (simp add: ulp_def)
  moreover have "round_half_even (10 ^ 17 / 16) = 6250000000000000"
    by (simp add: round_half_even_def Let_def)
  ultimately show ?thesis
    by (simp add: double_round_def)
qed

lemma js_minus_1e17: "js_minus (10 ^ 17) 5 = 10 ^ 17"
proof -
  have "binade (10 ^ 17 - 5) = int 56"
    by (rule binade_eq) simp_all
  then have u: "ulp (10 ^ 17 - 5) = 16"
    by (simp add: ulp_def)
  have "round_half_even ((10 ^ 17 - 5) / 16) = 6250000000000000"
    by (simp add: round_half_even_def Let_def)
  with u show ?thesis
    by (simp add: js_minus_def double_round_def)
qed

lemma js_minus_error: "\<bar>js_minus a b - (a - b)\<bar> \<le> ulp (a - b) / 2"
  unfolding js_minus_def by (rule double_round_error)

lemma js_minus_int:
  "a - b \<in> \<int> \<Longrightarrow> \<bar>a - b\<bar> < 2 ^ 53 \<Longrightarrow> js_minus a b = a - b"
  unfolding js_minus_def by (rule double_round_int)

lemma js_minus_below:
  assumes "\<bar>a - 5\<bar> < 2 ^ 56"
  shows "js_minus a 5 \<le> a - 1"
proof (cases "a - 5 = 0")
  case True
  then show ?thesis
    by (simp add: js_minus_def double_round_def)
next
  case False
  from ulp_le_8 [OF False assms] js_minus_error [of a 5] show ?thesis
    by linarith
qed

section \<open>Scales\<close>

lemma Min_insert_min:
  fixes m :: "'b::linorder"
  assumes "finite S"
  shows "Min (insert (min m y) S) = Min (insert m (insert y S))"
proof (cases "S = {}")
  case True
  then show ?thesis by simp
next
  case False
  with assms show ?thesis by (simp add: min.assoc)
qed

lemma Max_insert_max:
  fixes m :: "'b::linorder"
  assumes "finite S"
  shows "Max (insert (max m y) S) = Max (insert m (insert y S))"
proof (cases "S = {}")
  case True
  then show ?thesis by simp
next
  case False
  with assms show ?thesis by (simp add: max.assoc)
qed

lemma d3_min_step:
  "foldl (\<lambda>m row. case m of None \<Rightarrow> Some (f row)
                    | Some m' \<Rightarrow> if m' > f row then Some (f row) else Some m') (Some m) xs
     = Some (Min (insert m (f ` set xs)))"
proof (induction xs arbitrary: m)
  case Nil
  then show ?case by simp
next
  case (Cons x xs)
  let ?step = "\<lambda>m row. case m of None \<Rightarrow> Some (f row)
                    | Some m' \<Rightarrow> if m' > f row then Some (f row) else Some m'"
  have "foldl ?step (Some m) (x # xs) = foldl ?step (Some (min m (f x))) xs"
    by (auto simp: min_def)
  also have "\<dots> = Some (Min (insert (min m (f x)) (f ` set xs)))"
    by (rule Cons.IH)
  also have "\<dots> = Some (Min (insert m (insert (f x) (f ` set xs))))"
    by (simp only: Min_insert_min [OF finite_imageI [OF finite_set]])
  finally show ?case
    by (simp only: list.set image_insert)
qed

lemma d3_min_Min: "xs \<noteq> [] \<Longrightarrow> d3_min xs f = Some (Min (f ` set xs))"
  by (cases xs) (simp_all add: d3_min_def d3_min_step)

lemma d3_max_step:
  "foldl (\<lambda>m row. case m of None \<Rightarrow> Some (f row)
                    | Some m' \<Rightarrow> if m' < f row then Some (f row) else Some m') (Some m) xs
     = Some (Max (insert m (f ` set xs)))"
proof (induction xs arbitrary: m)
  case Nil
  then show ?case by simp
next
  case (Cons x xs)
  let ?step = "\<lambda>m row. case m of None \<Rightarrow> Some (f row)
                    | Some m' \<Rightarrow> if m' < f row then Some (f row) else Some m'"
  have "foldl ?step (Some m) (x # xs) = foldl ?step (Some (max m (f x))) xs"
    by (auto simp: max_def)
  also have "\<dots> = Some (Max (insert (max m (f x)) (f ` set xs)))"
    by (rule Cons.IH)
  also have "\<dots> = Some (Max (insert m (insert (f x) (f ` set xs))))"
    by (simp only: Max_insert_max [OF finite_imageI [OF finite_set]])
  finally show ?case
    by (simp only: list.set image_insert)
qed

lemma d3_max_Max: "xs \<noteq> [] \<Longrightarrow> d3_max xs f = Some (Max (f ` set xs))"
  by (cases xs) (simp_all add: d3_max_def d3_max_step)

lemma d3_min_Nil: "d3_min [] f = None"
  by (simp add: d3_min_def)

lemma d3_max_Nil: "d3_max [] f = None"
  by (simp add: d3_max_def)

lemma volume_number_volData:
  "volume_number ` set (volData data) = {v. \<exists>d \<in> set data. volume d = Some v \<and> v \<noteq> 0}"
proof (intro set_eqI iffI)
  fix v assume "v \<in> volume_number ` set (volData data)"
  then obtain d where d: "d \<in> set data" "volume d \<noteq> None" "volume d \<noteq> Some 0"
    and v: "v = volume_number d"
    by (auto simp: volData_def)
  from d(2) obtain w where "volume d = Some w"
    by auto
  with d v show "v \<in> {v. \<exists>d \<in> set data. volume d = Some v \<and> v \<noteq> 0}"
    by (auto simp: volume_number_def)
next
  fix v assume "v \<in> {v. \<exists>d \<in> set data. volume d = Some v \<and> v \<noteq> 0}"
  then obtain d where d: "d \<in> set data" "volume d = Some v" "v \<noteq> 0"
    by auto
  then have "d \<in> set (volData data)" "volume_number d = v"
    by (simp_all add: volData_def volume_number_def)
  then show "v \<in> volume_number ` set (volData data)"
    by (metis image_eqI)
qed

lemma volume_domain:
  "(yMinVolume data, yMaxVolume data)
     = (let V = {v. \<exists>d \<in> set data. volume d = Some v \<and> v \<noteq> 0}
        in if V = {} then (None, None) else (Some (Min V), Some (Max V)))"
proof -
  define V where "V = {v. \<exists>d \<in> set data. volume d = Some v \<and> v \<noteq> 0}"
  have img: "volume_number ` set (volData data) = V"
    unfolding V_def by (rule volume_number_volData)
  then have emp: "volData data = [] \<longleftrightarrow> V = {}"
    by (metis image_is_empty set_empty)
  have "(yMinVolume data, yMaxVolume data)
          = (if V = {} then (None, None) else (Some (Min V), Some (Max V)))"
  proof (cases "volData data = []")
    case True
    with emp show ?thesis
      by (simp add: yMinVolume_def yMaxVolume_def d3_min_Nil d3_max_Nil)
  next
    case False
    with emp img show ?thesis
      by (simp add: yMinVolume_def yMaxVolume_def d3_min_Min d3_max_Max)
  qed
  then show ?thesis
    unfolding V_def Let_def .
qed

text \<open>
  Claim C5. For a non-empty series the time scale has the domain
  \<open>[min date, max date]\<close>, the price scale the domain \<open>[min close - 5, max close]\<close>, and
  the volume scale the domain \<open>[min volume, max volume]\<close> over the non-zero volumes
  (undefined bounds when there is none), with the pixel range \<open>[height, height * 0.75]\<close>,
  onto which a volume is mapped linearly. The lower price bound is the code's own
  \<^verbatim>\<open>yMin - 5\<close>: the double nearest to \<open>min close - 5\<close>, and \<open>min close - 5\<close> itself when
  that is an integer below \<open>2^53\<close> in magnitude.
\<close>

theorem scale_domains:
  assumes "data \<noteq> []"
  shows "scale_domain (xScale vp data) = (Some (Min (date ` set data)), Some (Max (date ` set data)))
       \<and> scale_range (xScale vp data) = (0, width vp)
       \<and> scale_domain (yScale vp data)
           = (Some (js_minus (Min (close ` set data)) 5), Some (Max (close ` set data)))
       \<and> \<bar>js_minus (Min (close ` set data)) 5 - (Min (close ` set data) - 5)\<bar>
           \<le> ulp (Min (close ` set data) - 5) / 2
       \<and> (Min (close ` set data) - 5 \<in> \<int> \<and> \<bar>Min (close ` set data) - 5\<bar> < 2 ^ 53 \<longrightarrow>
            js_minus (Min (close ` set data)) 5 = Min (close ` set data) - 5)
       \<and> scale_range (yScale vp data) = (height vp, 0)
       \<and> scale_domain (yVolumeScale vp data)
           = (let V = {v. \<exists>d \<in> set data. volume d = Some v \<and> v \<noteq> 0}
              in if V = {} then (None, None) else (Some (Min V), Some (Max V)))
       \<and> scale_range (yVolumeScale vp data) = (height vp, height vp * 0.75)
       \<and> (\<forall>lo hi. scale_domain (yVolumeScale vp data) = (Some lo, Some hi) \<and> lo < hi \<longrightarrow>
             (\<forall>v. scaleLinear (yVolumeScale vp data) v
                    = Some (height vp - (v - lo) / (hi - lo) * (height vp / 4))))"
proof (intro conjI allI impI)
  show "scale_domain (xScale vp data) = (Some (Min (date ` set data)), Some (Max (date ` set data)))"
    using assms by (simp add: xScale_def xMin_def xMax_def d3_min_Min d3_max_Max)
  show "scale_range (xScale vp data) = (0, width vp)"
    by (simp add: xScale_def)
  show "scale_domain (yScale vp data)
           = (Some (js_minus (Min (close ` set data)) 5), Some (Max (close ` set data)))"
    using assms by (simp add: yScale_def yMin_def yMax_def d3_min_Min d3_max_Max)
  show "\<bar>js_minus (Min (close ` set data)) 5 - (Min (close ` set data) - 5)\<bar>
           \<le> ulp (Min (close ` set data) - 5) / 2"
    by (rule js_minus_error)
  show "scale_range (yScale vp data) = (height vp, 0)"
    by (simp add: yScale_def)
  show "scale_domain (yVolumeScale vp data)
           = (let V = {v. \<exists>d \<in> set data. volume d = Some v \<and> v \<noteq> 0}
              in if V = {} then (None, None) else (Some (Min V), Some (Max V)))"
    using volume_domain [of data] by (simp add: yVolumeScale_def)
  show "scale_range (yVolumeScale vp data) = (height vp, height vp * 0.75)"
    by (simp add: yVolumeScale_def)
next
  assume "Min (close ` set data) - 5 \<in> \<int> \<and> \<bar>Min (close ` set data) - 5\<bar> < 2 ^ 53"
  then show "js_minus (Min (close ` set data)) 5 = Min (close ` set data) - 5"
    by (intro js_minus_int) simp_all
next
  fix lo hi v
  assume "scale_domain (yVolumeScale vp data) = (Some lo, Some hi) \<and> lo < hi"
  moreover have "scale_range (yVolumeScale vp data) = (height vp, height vp * (3 / 4))"
    by (simp add: yVolumeScale_def)
  moreover have "interpolateNumber h (h * (3 / 4)) t = h - t * (h / 4)" for h t :: real
    by (simp add: interpolateNumber_def algebra_simps)
  ultimately show "scaleLinear (yVolumeScale vp data) v
                     = Some (height vp - (v - lo) / (hi - lo) * (height vp / 4))"
    by (simp add: scaleLinear_def normalize_def)
qed

theorem scale_domains_witness:
  "example_series \<noteq> []
   \<and> scale_domain (xScale example_viewport example_series) = (Some 10, Some 30)
   \<and> scale_domain (yScale example_viewport example_series) = (Some 3, Some 12)
   \<and> scale_domain (yVolumeScale example_viewport example_series) = (Some 100, Some 200)
   \<and> scale_range (yVolumeScale example_viewport example_series) = (770, 577.5)
   \<and> scaleLinear (yVolumeScale example_viewport example_series) 150 = Some 673.75"
proof -
  have ne: "example_series \<noteq> []"
    by (simp add: example_series_def)
  have V: "{v. \<exists>d \<in> set example_series. volume d = Some v \<and> v \<noteq> 0} = {100, 200, 150}"
    by (auto simp: example_series_def)
  have h: "height example_viewport = 770"
    by (simp add: height_def example_viewport_def margin_top_def margin_bottom_def)
  have low: "Min (close ` set example_series) = 8"
    by (simp add: example_series_def)
  note th = scale_domains [OF ne, of example_viewport]
  from th have "scale_domain (xScale example_viewport example_series) = (Some 10, Some 30)"
    by (simp add: example_series_def)
  moreover from th have "js_minus (Min (close ` set example_series)) 5 = 3"
    unfolding low by simp
  with th have "scale_domain (yScale example_viewport example_series) = (Some 3, Some 12)"
    by (simp add: example_series_def)
  moreover from th
  have vd: "scale_domain (yVolumeScale example_viewport example_series) = (Some 100, Some 200)"
    unfolding V by (simp add: Let_def)
  moreover from th
  have "scale_range (yVolumeScale example_viewport example_series) = (770, 577.5)"
    by (simp add: h)
  moreover from th vd
  have "scaleLinear (yVolumeScale example_viewport example_series) 150 = Some 673.75"
    by (simp add: h)
  ultimately show ?thesis
    using ne by simp
qed

lemma Min_le_Max_image:
  fixes f :: "'a \<Rightarrow> 'b::linorder"
  assumes "xs \<noteq> []"
  shows "Min (f ` set xs) \<le> Max (f ` set xs)"
proof -
  from assms obtain x where "x \<in> set xs"
    by (cases xs) auto
  then have "Min (f ` set xs) \<le> f x" "f x \<le> Max (f ` set xs)"
    by simp_all
  then show ?thesis
    by (rule order_trans)
qed

lemma priceChart_points:
  "priceChart (draw vp data)
     = map (\<lambda>d. (scaleTime (xScale vp data) (date d), scaleLinear (yScale vp data) (close d))) data"
  by (simp add: draw_def line_def)

text \<open>
  Claim C8, amended. For a non-empty series the price domain is
  \<open>[yMin - 5, max close]\<close> with the subtraction as the code computes it, on doubles. When
  \<open>min close - 5\<close> is below \<open>2^56\<close> in magnitude the domain is at least 1 wide, also when
  all closes are equal, and the price scale is a linear map, one-to-one whenever the plot
  has a height. (Beyond that the rounding can return \<open>min close\<close> itself.) A domain with
  \<open>min = max\<close>, of price or of time, sends every value to the middle of the pixel range,
  a defined position, and the price path is drawn there.
\<close>

theorem degenerate_domains:
  assumes "data \<noteq> []"
  shows "(\<exists>lo hi. scale_domain (yScale vp data) = (Some lo, Some hi)
            \<and> lo = js_minus (Min (close ` set data)) 5 \<and> hi = Max (close ` set data)
            \<and> (\<bar>Min (close ` set data) - 5\<bar> < 2 ^ 56 \<longrightarrow>
                 1 \<le> hi - lo
                 \<and> (\<forall>y. scaleLinear (yScale vp data) y
                          = Some (height vp * ((hi - y) / (hi - lo))))
                 \<and> (height vp \<noteq> 0 \<longrightarrow> inj (scaleLinear (yScale vp data))))
            \<and> (lo = hi \<longrightarrow>
                 (\<forall>y. scaleLinear (yScale vp data) y = Some (height vp / 2))
                 \<and> (\<forall>p \<in> set (priceChart (draw vp data)). snd p = Some (height vp / 2))))
       \<and> (\<exists>d0 d1. scale_domain (xScale vp data) = (Some d0, Some d1)
            \<and> d0 = Min (date ` set data) \<and> d1 = Max (date ` set data) \<and> d0 \<le> d1
            \<and> (d0 = d1 \<longrightarrow>
                 (\<forall>t. scaleTime (xScale vp data) t = Some (width vp / 2))
                 \<and> (\<forall>p \<in> set (priceChart (draw vp data)). fst p = Some (width vp / 2)))
            \<and> (d0 < d1 \<longrightarrow>
                 (\<forall>t. scaleTime (xScale vp data) t
                        = Some (width vp * (real_of_int (t - d0) / real_of_int (d1 - d0))))))"
proof (rule conjI)
  define lo where "lo = js_minus (Min (close ` set data)) 5"
  define hi where "hi = Max (close ` set data)"
  have dom: "scale_domain (yScale vp data) = (Some lo, Some hi)"
    using assms by (simp add: yScale_def yMin_def yMax_def d3_min_Min d3_max_Max lo_def hi_def)
  have rng: "scale_range (yScale vp data) = (height vp, 0)"
    by (simp add: yScale_def)
  have small: "1 \<le> hi - lo
      \<and> (\<forall>y. scaleLinear (yScale vp data) y = Some (height vp * ((hi - y) / (hi - lo))))
      \<and> (height vp \<noteq> 0 \<longrightarrow> inj (scaleLinear (yScale vp data)))"
    if mag: "\<bar>Min (close ` set data) - 5\<bar> < 2 ^ 56"
  proof -
    have "lo \<le> Min (close ` set data) - 1"
      unfolding lo_def using mag by (rule js_minus_below)
    then have wide: "1 \<le> hi - lo"
      using Min_le_Max_image [OF assms, of close] by (simp add: hi_def)
    have val: "scaleLinear (yScale vp data) y = Some (height vp * ((hi - y) / (hi - lo)))" for y
    proof -
      have "1 - (y - lo) / (hi - lo) = (hi - y) / (hi - lo)"
        using wide by (simp add: field_simps)
      then show ?thesis
        using wide dom rng by (simp add: scaleLinear_def normalize_def interpolateNumber_def)
    qed
    have "inj (scaleLinear (yScale vp data))" if "height vp \<noteq> 0"
    proof (rule injI)
      fix y z assume "scaleLinear (yScale vp data) y = scaleLinear (yScale vp data) z"
      then have "height vp * ((hi - y) / (hi - lo)) = height vp * ((hi - z) / (hi - lo))"
        by (simp add: val)
      with that wide show "y = z"
        by simp
    qed
    with wide val show ?thesis
      by blast
  qed
  have flat: "scaleLinear (yScale vp data) y = Some (height vp / 2)" if "lo = hi" for y
    using that dom rng by (simp add: scaleLinear_def normalize_def interpolateNumber_def)
  have "\<forall>p \<in> set (priceChart (draw vp data)). snd p = Some (height vp / 2)" if "lo = hi"
    using flat [OF that] by (auto simp: priceChart_points)
  with dom small flat
  show "\<exists>lo hi. scale_domain (yScale vp data) = (Some lo, Some hi)
            \<and> lo = js_minus (Min (close ` set data)) 5 \<and> hi = Max (close ` set data)
            \<and> (\<bar>Min (close ` set data) - 5\<bar> < 2 ^ 56 \<longrightarrow>
                 1 \<le> hi - lo
                 \<and> (\<forall>y. scaleLinear (yScale vp data) y
                          = Some (height vp * ((hi - y) / (hi - lo))))
                 \<and> (height vp \<noteq> 0 \<longrightarrow> inj (scaleLinear (yScale vp data))))
            \<and> (lo = hi \<longrightarrow>
                 (\<forall>y. scaleLinear (yScale vp data) y = Some (height vp / 2))
                 \<and> (\<forall>p \<in> set (priceChart (draw vp data)). snd p = Some (height vp / 2)))"
    unfolding lo_def hi_def by blast
next
  define d0 where "d0 = Min (date ` set data)"
  define d1 where "d1 = Max (date ` set data)"
  have dom: "scale_domain (xScale vp data) = (Some d0, Some d1)"
    using assms by (simp add: xScale_def xMin_def xMax_def d3_min_Min d3_max_Max d0_def d1_def)
  have rng: "scale_range (xScale vp data) = (0, width vp)"
    by (simp add: xScale_def)
  have le: "d0 \<le> d1"
    unfolding d0_def d1_def using assms by (rule Min_le_Max_image)
  have same: "scaleTime (xScale vp data) t = Some (width vp / 2)" if "d0 = d1" for t
    using that dom rng by (simp add: scaleTime_def normalize_def interpolateNumber_def)
  have path: "\<forall>p \<in> set (priceChart (draw vp data)). fst p = Some (width vp / 2)" if "d0 = d1"
    using same [OF that] by (auto simp: priceChart_points)
  have apart: "scaleTime (xScale vp data) t
                 = Some (width vp * (real_of_int (t - d0) / real_of_int (d1 - d0)))"
    if "d0 < d1" for t
    using that dom rng by (simp add: scaleTime_def normalize_def interpolateNumber_def)
  from dom le same path apart
  show "\<exists>d0 d1. scale_domain (xScale vp data) = (Some d0, Some d1)
            \<and> d0 = Min (date ` set data) \<and> d1 = Max (date ` set data) \<and> d0 \<le> d1
            \<and> (d0 = d1 \<longrightarrow>
                 (\<forall>t. scaleTime (xScale vp data) t = Some (width vp / 2))
                 \<and> (\<forall>p \<in> set (priceChart (draw vp data)). fst p = Some (width vp / 2)))
            \<and> (d0 < d1 \<longrightarrow>
                 (\<forall>t. scaleTime (xScale vp data) t
                        = Some (width vp * (real_of_int (t - d0) / real_of_int (d1 - d0)))))"
    unfolding d0_def d1_def by blast
qed

theorem degenerate_domains_witness:
  "single_series \<noteq> [] \<and> \<bar>Min (close ` set single_series) - 5\<bar> < 2 ^ 56
   \<and> scale_domain (yScale example_viewport single_series) = (Some 2, Some 7)
   \<and> scaleLinear (yScale example_viewport single_series) 7 = Some 0
   \<and> scale_domain (xScale example_viewport single_series) = (Some 10, Some 10)
   \<and> scaleTime (xScale example_viewport single_series) 10 = Some 500
   \<and> priceChart (draw example_viewport single_series) = [(Some 500, Some 0)]"
proof -
  have ne: "single_series \<noteq> []"
    by (simp add: single_series_def)
  have img: "close ` set single_series = {7}" "date ` set single_series = {10}"
    by (simp_all add: single_series_def)
  have w: "width example_viewport = 1000"
    by (simp add: width_def example_viewport_def margin_left_def margin_right_def)
  have low: "js_minus 7 5 = 2"
    using js_minus_int [of 7 5] by simp
  from degenerate_domains [OF ne, of example_viewport]
  have facts: "scale_domain (yScale example_viewport single_series) = (Some 2, Some 7)"
    "scaleLinear (yScale example_viewport single_series) 7 = Some 0"
    "scale_domain (xScale example_viewport single_series) = (Some 10, Some 10)"
    "scaleTime (xScale example_viewport single_series) 10 = Some 500"
    unfolding img by (simp_all add: w low)
  then have "priceChart (draw example_viewport single_series) = [(Some 500, Some 0)]"
    by (simp add: priceChart_points) (simp add: single_series_def)
  with facts ne show ?thesis
    by (simp add: img)
qed

text \<open>
  Claim C8 as first stated fails on a day closing at \<open>10^17\<close>, a double: \<^verbatim>\<open>yMin - 5\<close> is
  \<open>10^17\<close> again, the price domain is \<open>[10^17, 10^17]\<close>, of width zero, and the close is
  drawn at mid-height.
\<close>

theorem price_domain_collapses:
  "huge_series \<noteq> [] \<and> double_round (10 ^ 17) = 10 ^ 17
   \<and> close (huge_series ! 0) = 10 ^ 17
   \<and> scale_domain (yScale example_viewport huge_series) = (Some (10 ^ 17), Some (10 ^ 17))
   \<and> scaleLinear (yScale example_viewport huge_series) (10 ^ 17) = Some 385"
proof -
  have "yMin huge_series = Some (10 ^ 17)" "yMax huge_series = Some (10 ^ 17)"
    by (simp_all add: yMin_def yMax_def d3_min_def d3_max_def huge_series_def)
  moreover have "js_minus 100000000000000000 5 = 100000000000000000"
    using js_minus_1e17 by simp
  ultimately have dom: "scale_domain (yScale example_viewport huge_series)
                    = (Some (10 ^ 17), Some (10 ^ 17))"
    by (simp add: yScale_def)
  have "height example_viewport = 770"
    by (simp add: height_def example_viewport_def margin_top_def margin_bottom_def)
  then have rng: "scale_range (yScale example_viewport huge_series) = (770, 0)"
    by (simp add: yScale_def)
  have "scaleLinear (yScale example_viewport huge_series) (10 ^ 17) = Some 385"
    by (simp add: scaleLinear_def dom rng normalize_def interpolateNumber_def)
  moreover have "double_round (10 ^ 17) = 10 ^ 17"
    by (rule double_round_1e17)
  moreover have "huge_series \<noteq> []" "close (huge_series ! 0) = 10 ^ 17"
    by (simp_all add: huge_series_def)
  ultimately show ?thesis
    using dom by blast
qed

section \<open>The render entry point\<close>

lemma renderChart_null: "renderChart c vp None pg = Inl TypeError"
  by (simp add: renderChart_def)

lemma useEffect_renders:
  "rows \<noteq> [] \<Longrightarrow> \<exists>pg'. useEffect c vp (Some rows) pg = Inr pg' \<and> svgs pg' c = [draw vp rows]"
  by (simp add: useEffect_def renderChart_def responsivefy_def)

text \<open>
  Claim C6, amended. For a series that is \<^verbatim>\<open>null\<close> or has no rows the effect calls no
  rendering and throws nothing: it returns the page as it was. On a page where nothing
  was drawn the chart therefore shows no \<^verbatim>\<open>svg\<close>; after an earlier effect, the page stays
  what that effect left.
\<close>

theorem empty_series_noop:
  "useEffect c vp None pg = Inr pg
   \<and> useEffect c vp (Some []) pg = Inr pg
   \<and> shown c (useEffect c vp None initial_page) = Some []
   \<and> shown c (useEffect c vp (Some []) initial_page) = Some []
   \<and> after (useEffect c vp d pg) (useEffect c vp None) = useEffect c vp d pg
   \<and> after (useEffect c vp d pg) (useEffect c vp (Some [])) = useEffect c vp d pg"
proof -
  have noop: "useEffect c vp None p = Inr p" "useEffect c vp (Some []) p = Inr p" for p
    by (simp_all add: useEffect_def)
  have "after r (useEffect c vp None) = r" "after r (useEffect c vp (Some [])) = r" for r
    by (cases r; simp add: after_def noop)+
  then show ?thesis
    by (simp add: noop shown_def initial_page_def)
qed

text \<open>
  Claim C6 as first stated fails once a chart has been drawn: an effect with no rows,
  or with \<^verbatim>\<open>null\<close>, leaves the earlier \<^verbatim>\<open>svg\<close> in place, so the chart is not empty.
\<close>

theorem stale_chart_kept:
  "shown 0 (after (useEffect 0 example_viewport (Some example_series) initial_page)
                  (useEffect 0 example_viewport (Some [])))
     = Some [draw example_viewport example_series]
   \<and> shown 0 (after (useEffect 0 example_viewport (Some example_series) initial_page)
                    (useEffect 0 example_viewport None))
     = Some [draw example_viewport example_series]
   \<and> [draw example_viewport example_series] \<noteq> []"
  by (simp add: shown_def after_def useEffect_def renderChart_def responsivefy_def
      initial_page_def example_series_def)

text \<open>
  Claim C9, evaluated on two charts mounted on one page. The container has no \<^verbatim>\<open>id\<close>,
  so both charts register their resize listener under \<^verbatim>\<open>resize.null\<close>: after the first
  chart has rendered the listener is its own, and after the second has rendered the
  only listener is the second chart's; the first chart's listener is gone.
\<close>

theorem resize_listener_overwritten:
  "js_plus ''resize.'' (attr_id (container 0)) = ''resize.null''
   \<and> js_plus ''resize.'' (attr_id (container 1)) = ''resize.null''
   \<and> map_sum id listeners (useEffect 0 example_viewport (Some example_series) initial_page)
       = Inr [''resize.null'' \<mapsto> 0]
   \<and> map_sum id listeners
       (after (useEffect 0 example_viewport (Some example_series) initial_page)
              (useEffect 1 example_viewport (Some example_series)))
       = Inr [''resize.null'' \<mapsto> 1]"
  by (simp add: js_plus_def container_def useEffect_def renderChart_def responsivefy_def
      after_def initial_page_def example_series_def)

section \<open>The search offset\<close>

text \<open>
  Claim C10, amended. For a non-empty series (of fewer than \<open>2^31\<close> rows) and any target
  date, the search started at offset 1 returns an index of at least 1, so the branch
  \<^verbatim>\<open>i === 0\<close> is never taken. A target before the first date of a date-ordered series is
  resolved to the first row: by the distance comparison, a negative left distance
  against a positive right one, when the series has two rows or more, and by the branch
  \<^verbatim>\<open>i >= data.length\<close> when it has one row.
\<close>

theorem lookup_from_offset_one:
  assumes "series \<noteq> []" "length series < 2 ^ 31"
  shows "\<exists>i. bisectDate series t 1 = Some i \<and> 1 \<le> i
            \<and> crosshairBranch i (length series) \<noteq> AtFirst
            \<and> (date_ordered series \<and> t < date (series ! 0) \<longrightarrow>
                 currentPoint series t = Some (Inr (series ! 0))
                 \<and> crosshairBranch i (length series)
                     = (if length series = 1 then AtLast else Between)
                 \<and> (1 < length series \<longrightarrow>
                      t - date (series ! 0) < 0 \<and> 0 < date (series ! 1) - t
                      \<and> selectPoint series t i = Inr (series ! 0)))"
proof -
  from bisectDate_from_1 [OF assms(2), of t]
  obtain i where i: "bisectDate series t 1 = Some i" "1 \<le> i"
    by blast
  have nf: "crosshairBranch i (length series) \<noteq> AtFirst"
    using i(2) by (simp add: crosshairBranch_def)
  have "currentPoint series t = Some (Inr (series ! 0))
          \<and> crosshairBranch i (length series) = (if length series = 1 then AtLast else Between)
          \<and> (1 < length series \<longrightarrow>
               t - date (series ! 0) < 0 \<and> 0 < date (series ! 1) - t
               \<and> selectPoint series t i = Inr (series ! 0))"
    if ord: "date_ordered series" and before: "t < date (series ! 0)"
  proof -
    have "bisectDate series t 1 = Some 1"
      using ord assms before by (intro bisectDate_before_first) simp_all
    with i have i1: "i = 1"
      by simp
    show ?thesis
    proof (cases "length series = 1")
      case True
      then show ?thesis
        using i i1 by (simp add: currentPoint_def selectPoint_def crosshairBranch_def js_index_def)
    next
      case False
      with assms(1) have len: "1 < length series"
        by (cases series) auto
      then have "date (series ! 0) < date (series ! 1)"
        using ord by (intro date_ordered_less) simp_all
      with before len i i1 assms(1) show ?thesis
        by (simp add: currentPoint_def selectPoint_def crosshairBranch_def js_index_def)
    qed
  qed
  with i nf show ?thesis
    by blast
qed

theorem lookup_from_offset_one_witness:
  "example_series \<noteq> [] \<and> length example_series < 2 ^ 31
   \<and> date_ordered example_series \<and> 5 < date (example_series ! 0)
   \<and> (\<exists>i. bisectDate example_series 5 1 = Some i \<and> 1 \<le> i
          \<and> crosshairBranch i (length example_series) = Between)
   \<and> currentPoint example_series 5 = Some (Inr (example_series ! 0))"
proof -
  have h: "example_series \<noteq> []" "length example_series < 2 ^ 31"
    and t: "5 < date (example_series ! 0)" and len: "length example_series \<noteq> 1"
    by (simp_all add: example_series_def)
  from lookup_from_offset_one [OF h, of 5] example_series_ordered t len
  have "(\<exists>i. bisectDate example_series 5 1 = Some i \<and> 1 \<le> i
          \<and> crosshairBranch i (length example_series) = Between)
        \<and> currentPoint example_series 5 = Some (Inr (example_series ! 0))"
    by auto
  with h t example_series_ordered show ?thesis
    by simp
qed

text \<open>Claim C10 as first stated fails on a series of one row: a target before its date
  is resolved by the branch \<^verbatim>\<open>i >= data.length\<close>, not by the distance comparison.\<close>

theorem single_row_before_first:
  "single_series \<noteq> [] \<and> 5 < date (single_series ! 0)
   \<and> bisectDate single_series 5 1 = Some 1
   \<and> crosshairBranch 1 (length single_series) = AtLast
   \<and> crosshairBranch 1 (length single_series) \<noteq> Between
   \<and> currentPoint single_series 5 = Some (Inr (single_series ! 0))"
  by (simp add: single_series_def bisectDate_def bisect_left_done currentPoint_def
      selectPoint_def crosshairBranch_def js_index_def)

end
